theory Spec2Isabelle
  imports Main "HOL-Library.Sublist"
begin

section \<open>Regular expressions as the Python \<open>re\<close> module runs them\<close>

text \<open>
  The two patterns of \<^verbatim>\<open>main.py\<close> use literals, the dot, a negated character class,
  sequencing, alternation, the greedy quantifiers \<open>?\<close> and \<open>+\<close>, and groups. \<open>re\<close> is a
  backtracking matcher: alternatives are tried left to right, a greedy quantifier tries
  the longer match first, and the first success wins. The matcher below returns every
  way a pattern can match a prefix of the input, in that order of preference; a state is
  the remaining input with the groups captured so far (latest first).
\<close>

datatype rx =
    Eps                     \<comment> \<open>the empty pattern\<close>
  | Chr char                \<comment> \<open>a literal character, escaped or not\<close>
  | Dot                     \<comment> \<open>\<open>.\<close>: any character but a newline\<close>
  | NoneOf "char list"      \<comment> \<open>\<open>[^...]\<close>\<close>
  | Seq rx rx
  | Alt rx rx               \<comment> \<open>\<open>a|b\<close>\<close>
  | Opt rx                  \<comment> \<open>\<open>a?\<close>, greedy\<close>
  | Plus rx                 \<comment> \<open>\<open>a+\<close>, greedy\<close>
  | Grp nat rx              \<comment> \<open>capturing group number \<open>n\<close>\<close>

type_synonym mstate = "string \<times> (nat \<times> string) list"

definition backslash :: char where
  "backslash = CHR 0x5C"

definition newline :: char where
  "newline = CHR 0x0A"

text \<open>A run of literal characters, and a sequence of patterns.\<close>

fun seq :: "rx list \<Rightarrow> rx" where
  "seq [] = Eps"
| "seq [a] = a"
| "seq (a # as) = Seq a (seq as)"

definition lit :: "string \<Rightarrow> rx" where
  "lit cs = seq (map Chr cs)"

fun one_char :: "(char \<Rightarrow> bool) \<Rightarrow> mstate \<Rightarrow> mstate list" where
  "one_char p ([], g) = []"
| "one_char p (c # cs, g) = (if p c then [(cs, g)] else [])"

text \<open>
  \<open>a+\<close>: one match of \<open>a\<close>, then as many more as possible before giving one back.
  Every round must consume input, so the length of the input bounds the rounds.
\<close>

fun rounds :: "nat \<Rightarrow> (mstate \<Rightarrow> mstate list) \<Rightarrow> mstate \<Rightarrow> mstate list" where
  "rounds 0 f st = []"
| "rounds (Suc n) f st =
     concat (map (\<lambda>st'. rounds n f st' @ [st'])
       (filter (\<lambda>st'. length (fst st') < length (fst st)) (f st)))"

primrec rmatch :: "rx \<Rightarrow> mstate \<Rightarrow> mstate list" where
  "rmatch Eps = (\<lambda>st. [st])"
| "rmatch (Chr c) = one_char (\<lambda>x. x = c)"
| "rmatch Dot = one_char (\<lambda>x. x \<noteq> newline)"
| "rmatch (NoneOf cs) = one_char (\<lambda>x. x \<notin> set cs)"
| "rmatch (Seq a b) = (\<lambda>st. concat (map (rmatch b) (rmatch a st)))"
| "rmatch (Alt a b) = (\<lambda>st. rmatch a st @ rmatch b st)"
| "rmatch (Opt a) = (\<lambda>st. rmatch a st @ [st])"
| "rmatch (Plus a) = (\<lambda>st. rounds (length (fst st)) (rmatch a) st)"
| "rmatch (Grp n a) = (\<lambda>st.
     map (\<lambda>st'. (fst st', (n, take (length (fst st) - length (fst st')) (fst st)) # snd st'))
       (rmatch a st))"

text \<open>
  \<open>re.match\<close> tries the pattern at the start of the string only; \<open>re.search\<close> tries every
  start position from the left and keeps the first that matches. Both return the
  preferred match there, or nothing.
\<close>

definition re_match :: "rx \<Rightarrow> string \<Rightarrow> mstate option" where
  "re_match p s = (case rmatch p (s, []) of [] \<Rightarrow> None | m # _ \<Rightarrow> Some m)"

fun re_search :: "rx \<Rightarrow> string \<Rightarrow> mstate option" where
  "re_search p [] = re_match p []"
| "re_search p (c # cs) =
     (case re_match p (c # cs) of Some m \<Rightarrow> Some m | None \<Rightarrow> re_search p cs)"

definition group :: "nat \<Rightarrow> mstate \<Rightarrow> string option" where
  "group n m = map_of (snd m) n"

section \<open>URL resolver: \<open>extract_shortcode\<close> and \<open>is_valid_instagram_url\<close>\<close>

text \<open>
  Both patterns are raw string literals, so each \<open>\\.\<close> of the source is two pattern
  characters of its own followed by a dot: an escaped backslash, which matches one
  literal backslash, and then the dot, which matches any character but a newline.

  \<^verbatim>\<open>r"instagram\\.com/(?:p|reel|tv)/([^/?#&]+)"\<close>
\<close>

definition shortcode_rx :: rx where
  "shortcode_rx =
     seq [lit ''instagram'', Chr backslash, Dot, lit ''com/'',
          Alt (lit ''p'') (Alt (lit ''reel'') (lit ''tv'')), Chr CHR ''/'',
          Grp 1 (Plus (NoneOf ''/?#&''))]"

definition extract_shortcode :: "string \<Rightarrow> string option" where
  "extract_shortcode instagram_post =
     (case re_search shortcode_rx instagram_post of
        Some m \<Rightarrow> group 1 m
      | None \<Rightarrow> None)"

text \<open>\<^verbatim>\<open>r"https?://(www\\.)?instagram\\.com/(p|reel|tv)/"\<close>\<close>

definition valid_url_rx :: rx where
  "valid_url_rx =
     seq [lit ''http'', Opt (Chr CHR ''s''), lit ''://'',
          Opt (Grp 1 (seq [lit ''www'', Chr backslash, Dot])),
          lit ''instagram'', Chr backslash, Dot, lit ''com/'',
          Grp 2 (Alt (lit ''p'') (Alt (lit ''reel'') (lit ''tv''))), Chr CHR ''/'']"

definition is_valid_instagram_url :: "string \<Rightarrow> bool" where
  "is_valid_instagram_url url = (re_match valid_url_rx url \<noteq> None)"

section \<open>Strings\<close>

text \<open>
  Text is a list of bytes; a character of the source outside ASCII is written as its
  UTF-8 bytes. \<open>str_int\<close> is the decimal rendering an f-string gives an integer,
  \<open>strip\<close> is \<open>str.strip()\<close> on the ASCII white space, \<open>py_in\<close> is the substring test
  \<open>sub in s\<close>, and \<open>endswith\<close> is \<open>str.endswith\<close>.
\<close>

definition digit_char :: "nat \<Rightarrow> char" where
  "digit_char d = ''0123456789'' ! d"

function str_nat :: "nat \<Rightarrow> string" where
  "str_nat n = (if n < 10 then [digit_char n] else str_nat (n div 10) @ [digit_char (n mod 10)])"
  by pat_completeness auto
termination
  by (relation "measure (\<lambda>n. n)") auto

definition str_int :: "int \<Rightarrow> string" where
  "str_int i = (if i < 0 then CHR ''-'' # str_nat (nat (- i)) else str_nat (nat i))"

definition is_space :: "char \<Rightarrow> bool" where
  "is_space c = (c \<in> set [CHR 0x09, CHR 0x0A, CHR 0x0B, CHR 0x0C, CHR 0x0D,
                            CHR 0x1C, CHR 0x1D, CHR 0x1E, CHR 0x1F, CHR 0x20])"

definition strip :: "string \<Rightarrow> string" where
  "strip s = rev (dropWhile is_space (rev (dropWhile is_space s)))"

fun py_in :: "string \<Rightarrow> string \<Rightarrow> bool" where
  "py_in sub [] = (sub = [])"
| "py_in sub (c # cs) = (prefix sub (c # cs) \<or> py_in sub cs)"

definition endswith :: "string \<Rightarrow> string \<Rightarrow> bool" where
  "endswith s suf = suffix suf s"

section \<open>Data model\<close>

text \<open>
  \<open>tg_user\<close> is the chat framework's user object (\<open>user.id\<close>, \<open>user.username\<close>,
  \<open>user.first_name\<close>; a user may have no handle). \<open>user_data\<close> is one entry of the user
  log, with the four keys \<open>log_user_data\<close> writes.
\<close>

record tg_user =
  tg_id :: int
  tg_username :: "string option"
  tg_first_name :: string

record user_data =
  user_id :: int
  username :: "string option"
  first_name :: string
  timestamp :: string

datatype exn = Exception string

text \<open>
  What a handler does to the outside, in order: replies and uploads through the chat
  protocol, the post lookup at the media provider, the HTTP download, and log lines.
\<close>

datatype event =
    ReplyText string
  | SendActionTyping
  | EditProgress string
  | DeleteProgress
  | ReplyVideo string string      \<comment> \<open>file content, caption\<close>
  | ReplyPhoto string string      \<comment> \<open>file content, caption\<close>
  | PostLookup string             \<comment> \<open>\<open>Post.from_shortcode\<close> with this shortcode\<close>
  | HttpGet string                \<comment> \<open>\<open>requests.get\<close> of this URL\<close>
  | LogError

text \<open>
  The state the handlers share: the admin file (a JSON object, when it exists), the user
  log file (a JSON array, when it exists), the other files of the working directory by
  name, and the trace of events so far. The two fixed file names never collide with a
  temp file name, which starts with \<open>temp_\<close>.
\<close>

record world =
  admin_file :: "(string \<times> int) list option"
  users_log :: "user_data list option"
  files :: "string \<rightharpoonup> string"
  trace :: "event list"

definition emit :: "event \<Rightarrow> world \<Rightarrow> world" where
  "emit ev w = w\<lparr>trace := trace w @ [ev]\<rparr>"

section \<open>Admin registry\<close>

definition get_admin :: "world \<Rightarrow> int option" where
  "get_admin w =
     (case admin_file w of
        Some obj \<Rightarrow> map_of obj ''admin_id''
      | None \<Rightarrow> None)"

definition set_admin :: "int \<Rightarrow> world \<Rightarrow> world" where
  "set_admin uid w =
     (if admin_file w = None then w\<lparr>admin_file := Some [(''admin_id'', uid)]\<rparr> else w)"

section \<open>User activity log\<close>

text \<open>
  The \<open>for\<close>/\<open>else\<close> loop of \<open>log_user_data\<close>: the first entry with the user's identifier
  gets the new timestamp and the loop breaks; \<open>None\<close> says that the loop ran to its end
  without a break, which is when the \<open>else\<close> branch appends.
\<close>

fun refresh :: "int \<Rightarrow> string \<Rightarrow> user_data list \<Rightarrow> user_data list option" where
  "refresh uid ts [] = None"
| "refresh uid ts (existing_user # rest) =
     (if user_id existing_user = uid then Some (existing_user\<lparr>timestamp := ts\<rparr> # rest)
      else map_option ((#) existing_user) (refresh uid ts rest))"

definition load_users :: "world \<Rightarrow> user_data list" where
  "load_users w = (case users_log w of Some users \<Rightarrow> users | None \<Rightarrow> [])"

text \<open>
  \<open>ts\<close> is the current Tashkent time as \<open>strftime("%Y-%m-%d %H:%M:%S")\<close> prints it. The
  files are read and written without an I/O error here.
\<close>

definition log_user_data :: "tg_user \<Rightarrow> string \<Rightarrow> world \<Rightarrow> world" where
  "log_user_data user ts w =
     (let user_data = \<lparr>user_id = tg_id user, username = tg_username user,
                         first_name = tg_first_name user, timestamp = ts\<rparr>;
          users = load_users w;
          users' = (case refresh (user_id user_data) (timestamp user_data) users of
                      Some updated \<Rightarrow> updated
                    | None \<Rightarrow> users @ [user_data])
      in w\<lparr>users_log := Some users'\<rparr>)"

section \<open>The environment of a handler\<close>

text \<open>
  A post as the provider library returns it; reading an attribute may itself fail.
  A streamed HTTP response delivers chunks and may break off with an error after them.
\<close>

record post =
  is_video :: "exn + bool"
  video_url :: "exn + string option"
  url :: "exn + string"

record response =
  chunks :: "string list"
  stream_error :: "exn option"

record date =
  year :: int
  month :: int
  day :: int

record datetime =
  dt_date :: date
  hour :: int
  minute :: int
  second :: int

text \<open>
  Everything a handler gets from outside the repository is a field of the environment:
  the provider lookup, the HTTP client, whether a file opens for writing, whether a
  chat-protocol call raises, the clock (\<open>now_str\<close> is the current Tashkent time printed
  with \<open>"%Y-%m-%d %H:%M:%S"\<close>, \<open>today\<close> the current Tashkent date), and
  \<open>datetime.strptime\<close> with that format, which raises on text it cannot parse.
\<close>

record env =
  from_shortcode :: "string \<Rightarrow> exn + post"
  requests_get :: "string \<Rightarrow> exn + response"
  open_wb :: "string \<Rightarrow> exn option"
  chat :: "event \<Rightarrow> exn option"
  now_str :: string
  today :: date
  strptime :: "string \<Rightarrow> exn + datetime"

text \<open>
  A handler step returns the exception it raised, if any, with the new state. A chat
  call is recorded in the trace whether or not it raises.
\<close>

definition call_chat :: "env \<Rightarrow> event \<Rightarrow> world \<Rightarrow> exn option \<times> world" where
  "call_chat e ev w = (chat e ev, emit ev w)"

definition and_then ::
  "exn option \<times> world \<Rightarrow> (world \<Rightarrow> exn option \<times> world) \<Rightarrow> exn option \<times> world" where
  "and_then r k = (case r of (None, w) \<Rightarrow> k w | (Some ex, w) \<Rightarrow> (Some ex, w))"

section \<open>Messages\<close>

definition cross_mark :: string where
  "cross_mark = [CHR 0xE2, CHR 0x9D, CHR 0x8C]"

definition invalid_url_msg :: string where
  "invalid_url_msg = cross_mark @ '' Invalid Instagram URL.''"

definition fetching_msg :: string where
  "fetching_msg = [CHR 0xE2, CHR 0x8F, CHR 0xB3] @ '' Fetching media...''"

definition failed_fetch_msg :: string where
  "failed_fetch_msg = cross_mark @ '' Failed to fetch media. Make sure it is public.''"

definition failed_send_msg :: string where
  "failed_send_msg = cross_mark @ '' Failed to send media.''"

definition permission_denied_msg :: string where
  "permission_denied_msg = cross_mark @ '' You don't have permission to use this command.''"

definition retrieving_error_msg :: string where
  "retrieving_error_msg =
     [CHR 0xE2, CHR 0x9A, CHR 0xA0, CHR 0xEF, CHR 0xB8, CHR 0x8F]
     @ '' An error occurred while retrieving user data.''"

definition caption :: string where
  "caption = [CHR 0xF0, CHR 0x9F, CHR 0x91, CHR 0xBE] @ '' Powered by @Instasave_downloader_bot''"

section \<open>\<open>fetch_instagram_data\<close>\<close>

text \<open>The body of the \<open>try\<close>: the lookup, then the attribute the kind of post selects.\<close>

definition lookup_media :: "env \<Rightarrow> string \<Rightarrow> exn + string option" where
  "lookup_media e shortcode =
     (case from_shortcode e shortcode of
        Inl ex \<Rightarrow> Inl ex
      | Inr post \<Rightarrow>
          (case is_video post of
             Inl ex \<Rightarrow> Inl ex
           | Inr True \<Rightarrow> video_url post
           | Inr False \<Rightarrow> (case url post of Inl ex \<Rightarrow> Inl ex | Inr u \<Rightarrow> Inr (Some u))))"

text \<open>
  The result is \<open>Inl\<close> for an exception that leaves the function and \<open>Inr\<close> for a
  returned value, \<open>None\<close> or the media URL.
\<close>

definition fetch_instagram_data ::
  "env \<Rightarrow> string \<Rightarrow> world \<Rightarrow> (exn + string option) \<times> world" where
  "fetch_instagram_data e instagram_post w =
     (case extract_shortcode instagram_post of
        None \<Rightarrow> (Inr None, w)
      | Some shortcode \<Rightarrow>
          if shortcode = [] then (Inr None, w)
          else (case lookup_media e shortcode of
                  Inr media \<Rightarrow> (Inr media, emit (PostLookup shortcode) w)
                | Inl ex \<Rightarrow> (Inr None, emit LogError (emit (PostLookup shortcode) w))))"

section \<open>\<open>list_users\<close>\<close>

text \<open>
  The generator sum of line 143: one for every entry whose parsed timestamp has today's
  date; the first timestamp that does not parse raises.
\<close>

fun today_users :: "(string \<Rightarrow> exn + datetime) \<Rightarrow> date \<Rightarrow> user_data list \<Rightarrow> exn + nat" where
  "today_users parse d [] = Inr 0"
| "today_users parse d (u # us) =
     (case parse (timestamp u) of
        Inl ex \<Rightarrow> Inl ex
      | Inr t \<Rightarrow>
          (case today_users parse d us of
             Inl ex \<Rightarrow> Inl ex
           | Inr n \<Rightarrow> Inr ((if dt_date t = d then 1 else 0) + n)))"

text \<open>
  The date part of an entry's stored timestamp, \<open>strptime(u['timestamp'], ...).date()\<close>,
  when the timestamp parses.
\<close>

definition stored_date :: "env \<Rightarrow> user_data \<Rightarrow> date option" where
  "stored_date e u = (case strptime e (timestamp u) of Inl ex \<Rightarrow> None | Inr t \<Rightarrow> Some (dt_date t))"

definition user_block :: "user_data \<Rightarrow> string" where
  "user_block u =
     [CHR 0xF0, CHR 0x9F, CHR 0x91, CHR 0xA4] @ '' User ID: '' @ str_int (user_id u) @ [newline]
     @ ''   Username: @''
     @ (case username u of None \<Rightarrow> ''N/A'' | Some h \<Rightarrow> if h = [] then ''N/A'' else h)
     @ [newline]
     @ ''   First Name: '' @ first_name u @ [newline]
     @ ''   Last Active: '' @ timestamp u @ [newline, newline]"

definition users_response :: "user_data list \<Rightarrow> nat \<Rightarrow> string" where
  "users_response users n =
     [CHR 0xF0, CHR 0x9F, CHR 0x93, CHR 0x8A] @ '' Total users: '' @ str_nat (length users)
     @ [newline]
     @ [CHR 0xF0, CHR 0x9F, CHR 0x8C, CHR 0x8D] @ '' Used today: '' @ str_nat n
     @ [newline, newline]
     @ concat (map user_block users)"

text \<open>The body of the \<open>try\<close> of \<open>list_users\<close>.\<close>

definition list_users_try :: "env \<Rightarrow> world \<Rightarrow> exn option \<times> world" where
  "list_users_try e w =
     (case users_log w of
        None \<Rightarrow> call_chat e (ReplyText ''No users found.'') w
      | Some users \<Rightarrow>
          (case today_users (strptime e) (today e) users of
             Inl ex \<Rightarrow> (Some ex, w)
           | Inr n \<Rightarrow> call_chat e (ReplyText (users_response users n)) w))"

definition list_users :: "env \<Rightarrow> tg_user \<Rightarrow> world \<Rightarrow> exn option \<times> world" where
  "list_users e user w =
     (if Some (tg_id user) \<noteq> get_admin w then call_chat e (ReplyText permission_denied_msg) w
      else (case list_users_try e w of
              (None, w') \<Rightarrow> (None, w')
            | (Some ex, w') \<Rightarrow> call_chat e (ReplyText retrieving_error_msg) (emit LogError w')))"

section \<open>\<open>download\<close>\<close>

record update =
  effective_user :: tg_user
  message_text :: string
  chat_id :: int

definition temp_name :: "int \<Rightarrow> string \<Rightarrow> string" where
  "temp_name cid media_url =
     (if py_in ''video'' media_url then ''temp_'' @ str_int cid @ ''.mp4''
      else ''temp_'' @ str_int cid @ ''.jpg'')"

text \<open>
  The body of the \<open>try\<close> of lines 177 to 189: the download into the temp file, the upload
  of the file by its extension, and the removal of the progress message.
\<close>

definition relay_try :: "env \<Rightarrow> string \<Rightarrow> string \<Rightarrow> world \<Rightarrow> exn option \<times> world" where
  "relay_try e media_url file_name w =
     (let w1 = emit (HttpGet media_url) w in
      case requests_get e media_url of
        Inl ex \<Rightarrow> (Some ex, w1)
      | Inr response \<Rightarrow>
          (case open_wb e file_name of
             Some ex \<Rightarrow> (Some ex, w1)
           | None \<Rightarrow>
               (let w2 = w1\<lparr>files := (files w1)(file_name \<mapsto> concat (chunks response))\<rparr> in
                case stream_error response of
                  Some ex \<Rightarrow> (Some ex, w2)
                | None \<Rightarrow>
                    (case files w2 file_name of
                       None \<Rightarrow> (Some (Exception ''FileNotFoundError''), w2)
                     | Some content \<Rightarrow>
                         and_then
                           (call_chat e
                              (if endswith file_name ''.mp4'' then ReplyVideo content caption
                               else ReplyPhoto content caption) w2)
                           (call_chat e DeleteProgress)))))"

text \<open>
  Lines 175 to 195: the \<open>try\<close>, the \<open>except\<close> that logs and edits the progress message, and
  the \<open>finally\<close> that removes the temp file if it exists. An exception of the \<open>except\<close>
  branch leaves the handler, after the \<open>finally\<close>.
\<close>

definition relay :: "env \<Rightarrow> int \<Rightarrow> string \<Rightarrow> world \<Rightarrow> exn option \<times> world" where
  "relay e cid media_url w =
     (let file_name = temp_name cid media_url;
          attempt = relay_try e media_url file_name w;
          handled = (case attempt of
                       (None, w1) \<Rightarrow> (None, w1)
                     | (Some ex, w1) \<Rightarrow> call_chat e (EditProgress failed_send_msg) (emit LogError w1));
          w2 = snd handled
      in (fst handled,
          if files w2 file_name \<noteq> None then w2\<lparr>files := (files w2)(file_name := None)\<rparr> else w2))"

definition download :: "env \<Rightarrow> update \<Rightarrow> world \<Rightarrow> exn option \<times> world" where
  "download e upd w =
     (let w1 = log_user_data (effective_user upd) (now_str e) w;
          instagram_post = strip (message_text upd)
      in if \<not> is_valid_instagram_url instagram_post
         then call_chat e (ReplyText invalid_url_msg) w1
         else
           and_then (call_chat e SendActionTyping w1) (\<lambda>w2.
           and_then (call_chat e (ReplyText fetching_msg) w2) (\<lambda>w3.
             case fetch_instagram_data e instagram_post w3 of
               (Inl ex, w4) \<Rightarrow> (Some ex, w4)
             | (Inr None, w4) \<Rightarrow> call_chat e (EditProgress failed_fetch_msg) w4
             | (Inr (Some media_url), w4) \<Rightarrow>
                 if media_url = [] then call_chat e (EditProgress failed_fetch_msg) w4
                 else relay e (chat_id upd) media_url w4)))"

section \<open>Sample inputs\<close>

text \<open>
  Concrete states and environments on which the theorems below are run: a fresh
  installation; a state with an admin and two logged users, one last seen on 1 May and
  one on 2 May; an environment whose clock says 2 May, whose provider knows a video post
  \<open>ABC\<close> and a photo post \<open>PIC\<close>, and where no call fails otherwise.
\<close>

definition fresh_world :: world where
  "fresh_world = \<lparr>admin_file = None, users_log = None, files = Map.empty, trace = []\<rparr>"

definition ann :: tg_user where
  "ann = \<lparr>tg_id = 1, tg_username = Some ''ann_new'', tg_first_name = ''Anna''\<rparr>"

definition sample_log :: "user_data list" where
  "sample_log =
     [\<lparr>user_id = 1, username = Some ''ann'', first_name = ''Ann'',
        timestamp = ''2024-05-01 23:59:59''\<rparr>,
      \<lparr>user_id = 2, username = None, first_name = ''Bob'',
        timestamp = ''2024-05-02 00:00:01''\<rparr>]"

definition sample_world :: world where
  "sample_world =
     \<lparr>admin_file = Some [(''admin_id'', 1)], users_log = Some sample_log,
      files = Map.empty, trace = []\<rparr>"

definition video_post :: post where
  "video_post =
     \<lparr>is_video = Inr True, video_url = Inr (Some ''https://cdn.example/video/1.bin''),
      url = Inr ''https://cdn.example/thumb/1.bin''\<rparr>"

definition photo_post :: post where
  "photo_post =
     \<lparr>is_video = Inr False, video_url = Inr None, url = Inr ''https://cdn.example/img/2.bin''\<rparr>"

definition sample_env :: env where
  "sample_env =
     \<lparr>from_shortcode = (\<lambda>sc. if sc = ''ABC'' then Inr video_post
                              else if sc = ''PIC'' then Inr photo_post
                              else Inl (Exception ''not found'')),
      requests_get = (\<lambda>u. Inr \<lparr>chunks = [''ab'', ''c''], stream_error = None\<rparr>),
      open_wb = (\<lambda>f. None),
      chat = (\<lambda>ev. None),
      now_str = ''2024-05-02 00:00:01'',
      today = \<lparr>year = 2024, month = 5, day = 2\<rparr>,
      strptime = (\<lambda>s.
        if s = ''2024-05-01 23:59:59''
        then Inr \<lparr>dt_date = \<lparr>year = 2024, month = 5, day = 1\<rparr>,
                   hour = 23, minute = 59, second = 59\<rparr>
        else if s = ''2024-05-02 00:00:01''
        then Inr \<lparr>dt_date = \<lparr>year = 2024, month = 5, day = 2\<rparr>,
                   hour = 0, minute = 0, second = 1\<rparr>
        else Inl (Exception ''ValueError''))\<rparr>"

text \<open>A message text with the backslash the patterns ask for.\<close>

definition backslash_link :: "string \<Rightarrow> string" where
  "backslash_link rest = ''https://instagram'' @ [backslash] @ ''.com/'' @ rest"

section \<open>Properties of the URL resolver\<close>

text \<open>A match never makes the input longer: what is left is a suffix of what was there.\<close>

lemma one_char_suffix: "st' \<in> set (one_char p st) \<Longrightarrow> suffix (fst st') (fst st)"
  by (cases "(p, st)" rule: one_char.cases) (auto simp: suffix_Cons split: if_splits)

lemma rounds_suffix:
  assumes "\<And>st st'. st' \<in> set (f st) \<Longrightarrow> suffix (fst st') (fst st)"
  shows "st' \<in> set (rounds n f st) \<Longrightarrow> suffix (fst st') (fst st)"
proof (induction n arbitrary: st st')
  case 0
  then show ?case by simp
next
  case (Suc n)
  then obtain mid where mid: "mid \<in> set (f st)" "st' \<in> set (rounds n f mid) \<or> st' = mid"
    by auto
  from mid(1) have "suffix (fst mid) (fst st)" by (rule assms)
  moreover have "suffix (fst st') (fst mid)"
  proof (cases "st' = mid")
    case True
    then show ?thesis by simp
  next
    case False
    with mid(2) have "st' \<in> set (rounds n f mid)" by simp
    then show ?thesis by (rule Suc.IH)
  qed
  ultimately show ?case by (rule suffix_order.trans [rotated])
qed

lemma rmatch_suffix: "st' \<in> set (rmatch r st) \<Longrightarrow> suffix (fst st') (fst st)"
proof (induction r arbitrary: st st')
  case (Seq a b)
  then obtain mid where "mid \<in> set (rmatch a st)" "st' \<in> set (rmatch b mid)" by auto
  with Seq.IH show ?case by (blast intro: suffix_order.trans)
next
  case (Plus a)
  then show ?case using rounds_suffix [of "rmatch a"] by simp
qed (auto simp: one_char_suffix)

text \<open>
  A pattern that has a literal character in its sequence matches only input that has
  that character.
\<close>

lemma needs_Chr: "st' \<in> set (rmatch (Chr c) st) \<Longrightarrow> c \<in> set (fst st)"
  by (cases "(\<lambda>x. x = c, st)" rule: one_char.cases) (auto split: if_splits)

lemma needs_Seq_left:
  assumes "st' \<in> set (rmatch (Seq a b) st)"
    and "\<And>st st'. st' \<in> set (rmatch a st) \<Longrightarrow> c \<in> set (fst st)"
  shows "c \<in> set (fst st)"
proof -
  from assms(1) obtain mid where "mid \<in> set (rmatch a st)" by auto
  then show ?thesis by (rule assms(2))
qed

lemma needs_Seq_right:
  assumes "st' \<in> set (rmatch (Seq a b) st)"
    and "\<And>st st'. st' \<in> set (rmatch b st) \<Longrightarrow> c \<in> set (fst st)"
  shows "c \<in> set (fst st)"
proof -
  from assms(1) obtain mid where mid: "mid \<in> set (rmatch a st)" "st' \<in> set (rmatch b mid)" by auto
  from mid(2) have "c \<in> set (fst mid)" by (rule assms(2))
  with rmatch_suffix [OF mid(1)] show ?thesis
    by (meson set_mono_suffix subsetD)
qed

lemma valid_url_rx_needs_backslash:
  "st' \<in> set (rmatch valid_url_rx st) \<Longrightarrow> backslash \<in> set (fst st)"
  unfolding valid_url_rx_def seq.simps
  by (erule needs_Seq_left, erule needs_Chr | erule needs_Seq_right)+

lemma shortcode_rx_needs_backslash:
  "st' \<in> set (rmatch shortcode_rx st) \<Longrightarrow> backslash \<in> set (fst st)"
  unfolding shortcode_rx_def seq.simps
  by (erule needs_Seq_left, erule needs_Chr | erule needs_Seq_right)+

lemma re_match_None:
  assumes "\<And>st st'. st' \<in> set (rmatch p st) \<Longrightarrow> c \<in> set (fst st)"
    and "c \<notin> set s"
  shows "re_match p s = None"
proof (cases "rmatch p (s, [])")
  case Nil
  then show ?thesis by (simp add: re_match_def)
next
  case (Cons m ms)
  then have "m \<in> set (rmatch p (s, []))" by simp
  then have "c \<in> set (fst (s, []::(nat \<times> string) list))" by (rule assms(1))
  with assms(2) show ?thesis by simp
qed

lemma re_search_None:
  assumes "\<And>st st'. st' \<in> set (rmatch p st) \<Longrightarrow> c \<in> set (fst st)"
  shows "c \<notin> set s \<Longrightarrow> re_search p s = None"
proof (induction s)
  case Nil
  have "re_match p [] = None" by (rule re_match_None [where c = c]) (erule assms, simp)
  then show ?case by simp
next
  case (Cons x xs)
  have "re_match p (x # xs) = None"
    by (rule re_match_None [where c = c]) (erule assms, rule Cons.prems)
  moreover from Cons have "re_search p xs = None" by simp
  ultimately show ?case by simp
qed

text \<open>
  C1. The claim is that the supported links, such as \<open>https://instagram.com/p/ABC\<close>, are
  valid and give their path segment as the shortcode. What the code does: a text
  without a backslash is never valid and never gives a shortcode, because both patterns
  ask for a backslash after \<open>instagram\<close>. The supported links have none.
\<close>

theorem no_backslash_no_match:
  "backslash \<notin> set link \<Longrightarrow>
     \<not> is_valid_instagram_url link \<and> extract_shortcode link = None"
  using re_match_None [of valid_url_rx backslash link, OF valid_url_rx_needs_backslash]
    re_search_None [of shortcode_rx backslash link, OF shortcode_rx_needs_backslash]
  by (simp add: is_valid_instagram_url_def extract_shortcode_def)

theorem no_backslash_no_match_witness:
  "backslash \<notin> set ''https://instagram.com/p/ABC''
   \<and> \<not> is_valid_instagram_url ''https://instagram.com/p/ABC''
   \<and> extract_shortcode ''https://instagram.com/p/ABC'' = None
   \<and> \<not> is_valid_instagram_url ''http://www.instagram.com/reel/XYZ123''
   \<and> extract_shortcode ''http://www.instagram.com/reel/XYZ123'' = None
   \<and> \<not> is_valid_instagram_url ''https://www.instagram.com/tv/Q1''
   \<and> extract_shortcode ''https://www.instagram.com/tv/Q1'' = None"
proof -
  have a: "backslash \<notin> set ''https://instagram.com/p/ABC''"
    and b: "backslash \<notin> set ''http://www.instagram.com/reel/XYZ123''"
    and c: "backslash \<notin> set ''https://www.instagram.com/tv/Q1''"
    by (simp_all add: backslash_def)
  from a no_backslash_no_match [OF a] no_backslash_no_match [OF b] no_backslash_no_match [OF c]
  show ?thesis by blast
qed

section \<open>Properties of \<open>download\<close>\<close>

lemma relay_trace_grows: "prefix (trace w) (trace (snd (relay e cid m w)))"
  by (auto simp: relay_def relay_try_def Let_def call_chat_def emit_def and_then_def
      split: sum.splits option.splits prod.splits)

lemma backslash_link_facts:
  "strip (backslash_link ''p/ABC'') = backslash_link ''p/ABC''"
  "is_valid_instagram_url (backslash_link ''p/ABC'')"
  "\<not> py_in ''instagram.com'' (backslash_link ''p/ABC'')"
  by code_simp+

text \<open>A text the pattern rejects gets the invalid-URL reply and nothing else.\<close>

lemma download_rejects:
  "\<not> is_valid_instagram_url (strip (message_text upd)) \<Longrightarrow>
     download e upd w =
       call_chat e (ReplyText invalid_url_msg) (log_user_data (effective_user upd) (now_str e) w)"
  by (simp add: download_def Let_def)

text \<open>
  C2. The claim is that a text without \<open>instagram.com/(p|reel|tv)/\<close> is rejected before
  any lookup. What the code does with the text \<open>https://instagram\.com/p/ABC\<close>, where a
  backslash stands before the dot: the text does not contain \<open>instagram.com\<close>, it is
  valid for the handler all the same, and when the two progress calls go through the
  handler looks the post \<open>ABC\<close> up at the provider.
\<close>

theorem download_looks_up_backslash_url:
  assumes "message_text upd = backslash_link ''p/ABC''"
    and "chat e SendActionTyping = None"
    and "chat e (ReplyText fetching_msg) = None"
  shows "\<not> py_in ''instagram.com'' (message_text upd)
       \<and> is_valid_instagram_url (strip (message_text upd))
       \<and> PostLookup ''ABC'' \<in> set (trace (snd (download e upd w)))"
proof -
  let ?w1 = "log_user_data (effective_user upd) (now_str e) w"
  let ?w3 = "emit (ReplyText fetching_msg) (emit SendActionTyping ?w1)"
  let ?w4 = "emit (PostLookup ''ABC'') ?w3"
  have sc: "extract_shortcode (backslash_link ''p/ABC'') = Some ''ABC''"
    by code_simp
  have in4: "PostLookup ''ABC'' \<in> set (trace ?w4)"
    by (simp add: emit_def)
  have d: "download e upd w =
     (case fetch_instagram_data e (backslash_link ''p/ABC'') ?w3 of
        (Inl ex, w4) \<Rightarrow> (Some ex, w4)
      | (Inr None, w4) \<Rightarrow> call_chat e (EditProgress failed_fetch_msg) w4
      | (Inr (Some media_url), w4) \<Rightarrow>
          if media_url = [] then call_chat e (EditProgress failed_fetch_msg) w4
          else relay e (chat_id upd) media_url w4)"
    using assms backslash_link_facts(1,2)
    by (simp add: download_def Let_def and_then_def call_chat_def)
  have "PostLookup ''ABC'' \<in> set (trace (snd (download e upd w)))"
  proof (cases "lookup_media e ''ABC''")
    case (Inl ex)
    then show ?thesis
      by (simp add: d fetch_instagram_data_def sc call_chat_def emit_def)
  next
    case (Inr media)
    show ?thesis
    proof (cases "media = None \<or> media = Some []")
      case True
      with Inr show ?thesis
        by (auto simp: d fetch_instagram_data_def sc call_chat_def emit_def)
    next
      case False
      then obtain m where m: "media = Some m" "m \<noteq> []" by auto
      with Inr have "download e upd w = relay e (chat_id upd) m ?w4"
        by (simp add: d fetch_instagram_data_def sc)
      with in4 relay_trace_grows [of ?w4 e "chat_id upd" m] show ?thesis
        by (metis set_mono_prefix subsetD)
    qed
  qed
  with assms(1) backslash_link_facts show ?thesis by simp
qed

theorem download_looks_up_backslash_url_witness:
  "PostLookup ''ABC'' \<in> set (trace (snd (download sample_env
      \<lparr>effective_user = ann, message_text = backslash_link ''p/ABC'', chat_id = 42\<rparr>
      fresh_world)))"
proof -
  have a: "message_text \<lparr>effective_user = ann, message_text = backslash_link ''p/ABC'',
             chat_id = 42\<rparr> = backslash_link ''p/ABC''"
    by simp
  have b: "chat sample_env SendActionTyping = None"
    by (simp add: sample_env_def)
  have c: "chat sample_env (ReplyText fetching_msg) = None"
    by (simp add: sample_env_def)
  from download_looks_up_backslash_url [OF a b c, of fresh_world] show ?thesis
    by blast
qed

section \<open>Properties of the admin registry\<close>

text \<open>
  C4. \<open>set_admin\<close> writes the admin file only when there is none: on a state with an
  admin file it changes nothing, whatever the identifier; on a state without one it
  stores the identifier, a later \<open>set_admin\<close> with any other identifier changes nothing,
  and \<open>get_admin\<close> keeps returning the identifier of the first call.
\<close>

theorem set_admin_first_writer_wins:
  "(admin_file w \<noteq> None \<longrightarrow> set_admin uid w = w)
   \<and> (admin_file w = None \<longrightarrow>
        admin_file (set_admin a w) = Some [(''admin_id'', a)]
      \<and> get_admin (set_admin a w) = Some a
      \<and> set_admin b (set_admin a w) = set_admin a w
      \<and> get_admin (set_admin b (set_admin a w)) = Some a)"
  by (simp add: set_admin_def get_admin_def)

theorem set_admin_first_writer_wins_witness:
  "set_admin 9 sample_world = sample_world
   \<and> get_admin (set_admin 9 (set_admin 7 fresh_world)) = Some 7"
proof -
  have a: "admin_file sample_world \<noteq> None" by (simp add: sample_world_def)
  have b: "admin_file fresh_world = None" by (simp add: fresh_world_def)
  from a b set_admin_first_writer_wins [of sample_world 9]
    set_admin_first_writer_wins [of fresh_world 9 7 9]
  show ?thesis by blast
qed

text \<open>
  C9. Without an admin file \<open>get_admin\<close> returns nothing, and \<open>list_users\<close> answers every
  caller with the permission-denied reply and does nothing else.
\<close>

theorem list_users_without_admin:
  "admin_file w = None \<Longrightarrow>
     get_admin w = None
   \<and> list_users e user w =
       (chat e (ReplyText permission_denied_msg), emit (ReplyText permission_denied_msg) w)"
  by (simp add: get_admin_def list_users_def call_chat_def)

theorem list_users_without_admin_witness:
  "admin_file fresh_world = None
   \<and> trace (snd (list_users sample_env ann fresh_world)) = [ReplyText permission_denied_msg]"
proof -
  have a: "admin_file fresh_world = None" by (simp add: fresh_world_def)
  from list_users_without_admin [OF a, of sample_env ann] a show ?thesis
    by (simp add: emit_def fresh_world_def)
qed

section \<open>Properties of the user activity log\<close>

lemma refresh_None: "refresh uid ts us = None \<longleftrightarrow> uid \<notin> user_id ` set us"
  by (induction us) auto

lemma refresh_ids: "refresh uid ts us = Some us' \<Longrightarrow> map user_id us' = map user_id us"
  by (induction us arbitrary: us') (auto split: if_splits)

lemma refresh_find:
  "refresh uid ts us = Some us' \<Longrightarrow>
     map_option timestamp (find (\<lambda>r. user_id r = uid) us') = Some ts"
  by (induction us arbitrary: us') (auto split: if_splits)

lemma refresh_update:
  "i < length us \<Longrightarrow> user_id (us ! i) = uid \<Longrightarrow> \<forall>j<i. user_id (us ! j) \<noteq> uid \<Longrightarrow>
     refresh uid ts us = Some (us[i := (us ! i)\<lparr>timestamp := ts\<rparr>])"
proof (induction us arbitrary: i)
  case Nil
  then show ?case by simp
next
  case (Cons u us)
  show ?case
  proof (cases i)
    case 0
    with Cons.prems show ?thesis by simp
  next
    case (Suc k)
    from Cons.prems(3) Suc have "user_id ((u # us) ! 0) \<noteq> uid" by blast
    then have head: "user_id u \<noteq> uid" by simp
    from Cons.prems(1,2) Suc have k: "k < length us" "user_id (us ! k) = uid" by simp_all
    have "\<forall>j<k. user_id (us ! j) \<noteq> uid"
    proof (intro allI impI)
      fix j
      assume "j < k"
      then have "Suc j < i" using Suc by simp
      with Cons.prems(3) have "user_id ((u # us) ! Suc j) \<noteq> uid" by blast
      then show "user_id (us ! j) \<noteq> uid" by simp
    qed
    with k have "refresh uid ts us = Some (us[k := (us ! k)\<lparr>timestamp := ts\<rparr>])"
      by (rule Cons.IH)
    with head Suc show ?thesis by simp
  qed
qed

lemma load_users_log [simp]: "load_users (log_user_data user ts w) =
   (case refresh (tg_id user) ts (load_users w) of Some updated \<Rightarrow> updated
    | None \<Rightarrow> load_users w @ [\<lparr>user_id = tg_id user, username = tg_username user,
                         first_name = tg_first_name user, timestamp = ts\<rparr>])"
  by (simp add: log_user_data_def load_users_def Let_def split: option.splits)

lemma known_after: "\<exists>r\<in>set (load_users w). user_id r = tg_id user \<Longrightarrow>
        length (load_users (log_user_data user t1 w)) = length (load_users w)
      \<and> map user_id (load_users (log_user_data user t1 w)) = map user_id (load_users w)
      \<and> map_option timestamp (find (\<lambda>r. user_id r = tg_id user) (load_users (log_user_data user t1 w))) = Some t1"
proof -
  assume a: "\<exists>r\<in>set (load_users w). user_id r = tg_id user"
  then have "tg_id user \<in> user_id ` set (load_users w)" by (metis imageI)
  then have "refresh (tg_id user) t1 (load_users w) \<noteq> None"
    using refresh_None [of "tg_id user" t1 "load_users w"] by blast
  then obtain us' where r: "refresh (tg_id user) t1 (load_users w) = Some us'" by auto
  from refresh_ids [OF r] have m: "map user_id us' = map user_id (load_users w)" .
  then have "length us' = length (load_users w)" by (metis length_map)
  with m r refresh_find [OF r] show ?thesis by simp
qed

lemma logged_after: "\<exists>r\<in>set (load_users (log_user_data user t1 w)). user_id r = tg_id user"
proof (cases "refresh (tg_id user) t1 (load_users w)")
  case None
  then show ?thesis by simp
next
  case (Some us')
  from refresh_find [OF Some] obtain r where "find (\<lambda>r. user_id r = tg_id user) us' = Some r"
    by auto
  then have "r \<in> set us' \<and> user_id r = tg_id user"
    by (auto simp: find_Some_iff)
  with Some show ?thesis by auto
qed

text \<open>
  C3. Logging the same user a second time leaves the log as long as the first call made
  it, with the same identifiers in the same places, and the entry of that user carries
  the second timestamp. The same holds for one call on a log that already has an entry
  with the user's identifier: nothing is appended, and the entry's timestamp is the new
  one.
\<close>

theorem log_user_data_no_duplicate:
  "(let w1 = log_user_data user t1 w; w2 = log_user_data user t2 w1 in
      length (load_users w2) = length (load_users w1)
      \<and> map user_id (load_users w2) = map user_id (load_users w1)
      \<and> map_option timestamp (find (\<lambda>r. user_id r = tg_id user) (load_users w2)) = Some t2)
   \<and> ((\<exists>r\<in>set (load_users w). user_id r = tg_id user) \<longrightarrow>
        length (load_users (log_user_data user t1 w)) = length (load_users w)
      \<and> map user_id (load_users (log_user_data user t1 w)) = map user_id (load_users w)
      \<and> map_option timestamp
           (find (\<lambda>r. user_id r = tg_id user) (load_users (log_user_data user t1 w))) = Some t1)"
  using known_after [of w user t1] known_after [OF logged_after, of user t2 t1 w]
  unfolding Let_def by blast

theorem log_user_data_no_duplicate_witness:
  "(\<exists>r\<in>set (load_users sample_world). user_id r = tg_id ann)
   \<and> length (load_users (log_user_data ann ''2024-05-02 08:00:00'' sample_world)) = 2
   \<and> length (load_users (log_user_data ann ''2024-05-02 09:00:00''
        (log_user_data ann ''2024-05-02 08:00:00'' fresh_world))) = 1"
proof -
  have a: "\<exists>r\<in>set (load_users sample_world). user_id r = tg_id ann"
    by (simp add: load_users_def sample_world_def sample_log_def ann_def)
  have b: "length (load_users sample_world) = 2"
    by (simp add: load_users_def sample_world_def sample_log_def)
  have c: "length (load_users (log_user_data ann ''2024-05-02 08:00:00'' fresh_world)) = 1"
    by (simp add: fresh_world_def log_user_data_def load_users_def Let_def)
  from a b c
    log_user_data_no_duplicate [of ann "''2024-05-02 08:00:00''" sample_world]
    log_user_data_no_duplicate [of ann "''2024-05-02 08:00:00''" fresh_world "''2024-05-02 09:00:00''"]
  show ?thesis unfolding Let_def by metis
qed

text \<open>
  C10. When the log has an entry with the caller's identifier, \<open>log_user_data\<close> changes
  the state in one place only: the first such entry, at index \<open>i\<close>, gets the new
  timestamp. Its identifier, handle and name stay as stored, whatever the caller's
  current handle and name are, every other entry is written back as it was, and the
  admin file, the other files and the trace are untouched.
\<close>

theorem log_user_data_frame:
  assumes "i < length (load_users w)"
    and "user_id (load_users w ! i) = tg_id user"
    and "\<forall>j<i. user_id (load_users w ! j) \<noteq> tg_id user"
  shows "log_user_data user ts w =
           w\<lparr>users_log := Some ((load_users w)[i := (load_users w ! i)\<lparr>timestamp := ts\<rparr>])\<rparr>"
  using refresh_update [OF assms, of ts]
  by (simp add: log_user_data_def Let_def)

theorem log_user_data_frame_witness:
  "log_user_data ann ''2024-05-02 08:00:00'' sample_world =
     sample_world\<lparr>users_log := Some
       [\<lparr>user_id = 1, username = Some ''ann'', first_name = ''Ann'',
          timestamp = ''2024-05-02 08:00:00''\<rparr>,
        \<lparr>user_id = 2, username = None, first_name = ''Bob'',
          timestamp = ''2024-05-02 00:00:01''\<rparr>]\<rparr>"
proof -
  have l: "load_users sample_world = sample_log"
    by (simp add: load_users_def sample_world_def)
  have a: "0 < length (load_users sample_world)"
    by (simp add: l sample_log_def)
  have b: "user_id (load_users sample_world ! 0) = tg_id ann"
    by (simp add: l sample_log_def ann_def)
  have c: "\<forall>j<0. user_id (load_users sample_world ! j) \<noteq> tg_id ann"
    by simp
  from log_user_data_frame [OF a b c, of "''2024-05-02 08:00:00''"] show ?thesis
    by (simp add: l sample_log_def)
qed

section \<open>Properties of the relay\<close>

text \<open>
  C7. Whatever the download, the upload and the chat calls do, and whatever the state
  before, the temp file of the relay does not exist when the relay is over.
\<close>

theorem relay_removes_temp_file:
  "files (snd (relay e cid media_url w)) (temp_name cid media_url) = None"
  by (simp add: relay_def Let_def)

theorem relay_removes_temp_file_witness:
  "files (snd (relay sample_env 42 ''https://cdn.example/video/1.bin'' fresh_world))
     (temp_name 42 ''https://cdn.example/video/1.bin'') = None"
  using relay_removes_temp_file [of sample_env 42 "''https://cdn.example/video/1.bin''" fresh_world]
  by simp

section \<open>Properties of \<open>list_users\<close>\<close>

lemma today_users_count:
  "\<forall>u\<in>set us. stored_date e u \<noteq> None \<Longrightarrow>
     today_users (strptime e) d us = Inr (length (filter (\<lambda>u. stored_date e u = Some d) us))"
  by (induction us) (auto simp: stored_date_def split: sum.splits)

lemma today_users_raises:
  "\<exists>u\<in>set us. stored_date e u = None \<Longrightarrow> \<exists>ex. today_users (strptime e) d us = Inl ex"
  by (induction us) (auto simp: stored_date_def split: sum.splits)

text \<open>
  C5. Called by the admin on a stored log, \<open>list_users\<close> replies first with the summary
  whose same-day count is the number of entries whose stored date is today's Tashkent
  date; an entry dated another day, such as yesterday, is therefore not counted. The
  only log without such a reply is one with a timestamp that does not parse: there the
  handler reports no count at all, only the error reply.
\<close>

theorem list_users_same_day_count:
  assumes "get_admin w = Some (tg_id user)"
    and "users_log w = Some users"
  shows "if \<forall>u\<in>set users. stored_date e u \<noteq> None
         then prefix
           (trace w @ [ReplyText (users_response users
              (length (filter (\<lambda>u. stored_date e u = Some (today e)) users)))])
           (trace (snd (list_users e user w)))
         else list_users e user w = call_chat e (ReplyText retrieving_error_msg) (emit LogError w)"
proof (cases "\<forall>u\<in>set users. stored_date e u \<noteq> None")
  case True
  with assms today_users_count [of users e "today e"]
  have "prefix
           (trace w @ [ReplyText (users_response users
              (length (filter (\<lambda>u. stored_date e u = Some (today e)) users)))])
           (trace (snd (list_users e user w)))"
    by (cases "chat e (ReplyText (users_response users
          (length (filter (\<lambda>u. stored_date e u = Some (today e)) users))))")
       (simp_all add: list_users_def list_users_try_def call_chat_def emit_def)
  then show ?thesis unfolding if_P [OF True] .
next
  case False
  then have "\<exists>u\<in>set users. stored_date e u = None" by simp
  from today_users_raises [OF this] obtain ex
    where "today_users (strptime e) (today e) users = Inl ex" by blast
  with assms
  have "list_users e user w = call_chat e (ReplyText retrieving_error_msg) (emit LogError w)"
    by (simp add: list_users_def list_users_try_def)
  then show ?thesis unfolding if_not_P [OF False] .
qed

lemma strptime_sample:
  "stored_date sample_env (sample_log ! 0) = Some \<lparr>year = 2024, month = 5, day = 1\<rparr>"
  "stored_date sample_env (sample_log ! 1) = Some \<lparr>year = 2024, month = 5, day = 2\<rparr>"
  by (simp_all add: stored_date_def sample_env_def sample_log_def)

theorem list_users_same_day_count_witness:
  "get_admin sample_world = Some (tg_id ann)
   \<and> users_log sample_world = Some sample_log
   \<and> stored_date sample_env (sample_log ! 0) = Some \<lparr>year = 2024, month = 5, day = 1\<rparr>
   \<and> stored_date sample_env (sample_log ! 1) = Some (today sample_env)
   \<and> prefix [ReplyText (users_response sample_log 1)]
        (trace (snd (list_users sample_env ann sample_world)))"
proof -
  have a: "get_admin sample_world = Some (tg_id ann)"
    by (simp add: get_admin_def sample_world_def ann_def)
  have b: "users_log sample_world = Some sample_log"
    by (simp add: sample_world_def)
  have c: "\<forall>u\<in>set sample_log. stored_date sample_env u \<noteq> None"
    by (simp add: stored_date_def sample_env_def sample_log_def)
  have d: "length (filter (\<lambda>u. stored_date sample_env u = Some (today sample_env)) sample_log) = 1"
    by (simp add: stored_date_def sample_env_def sample_log_def)
  have e: "trace sample_world = []"
    by (simp add: sample_world_def)
  from list_users_same_day_count [OF a b, of sample_env]
  have "prefix
     (trace sample_world @ [ReplyText (users_response sample_log
        (length (filter (\<lambda>u. stored_date sample_env u = Some (today sample_env)) sample_log)))])
     (trace (snd (list_users sample_env ann sample_world)))"
    unfolding if_P [OF c] .
  then have p: "prefix [ReplyText (users_response sample_log 1)]
     (trace (snd (list_users sample_env ann sample_world)))"
    by (simp only: d e append_Nil)
  have t: "today sample_env = \<lparr>year = 2024, month = 5, day = 2\<rparr>"
    by (simp add: sample_env_def)
  from a b p strptime_sample show ?thesis
    by (simp only: t simp_thms)
qed

section \<open>Properties of \<open>fetch_instagram_data\<close>\<close>

text \<open>
  C6. \<open>fetch_instagram_data\<close> always returns and never raises. Without a shortcode it
  returns nothing and looks nothing up. With one, it looks the post up and returns the
  video URL of a video post and the image URL of any other post; when the lookup or an
  attribute raises, it returns nothing.
\<close>

theorem fetch_instagram_data_never_raises:
  "(\<exists>r. fst (fetch_instagram_data e p w) = Inr r)
   \<and> (extract_shortcode p = None \<longrightarrow> fetch_instagram_data e p w = (Inr None, w))
   \<and> (\<forall>sc post v. extract_shortcode p = Some sc \<and> sc \<noteq> [] \<and> from_shortcode e sc = Inr post
         \<and> is_video post = Inr True \<and> video_url post = Inr v \<longrightarrow>
         fetch_instagram_data e p w = (Inr v, emit (PostLookup sc) w))
   \<and> (\<forall>sc post u. extract_shortcode p = Some sc \<and> sc \<noteq> [] \<and> from_shortcode e sc = Inr post
         \<and> is_video post = Inr False \<and> url post = Inr u \<longrightarrow>
         fetch_instagram_data e p w = (Inr (Some u), emit (PostLookup sc) w))
   \<and> (\<forall>sc ex. extract_shortcode p = Some sc \<and> lookup_media e sc = Inl ex \<longrightarrow>
         fst (fetch_instagram_data e p w) = Inr None)"
  by (auto simp: fetch_instagram_data_def lookup_media_def split: option.splits sum.splits bool.splits)

lemma sample_codes:
  "extract_shortcode ''not a url'' = None"
  "extract_shortcode (backslash_link ''p/ABC'') = Some ''ABC''"
  "extract_shortcode (backslash_link ''p/PIC/?x=1'') = Some ''PIC''"
  "extract_shortcode (backslash_link ''reel/GONE'') = Some ''GONE''"
  by code_simp+

theorem fetch_instagram_data_never_raises_witness:
  "fetch_instagram_data sample_env ''not a url'' fresh_world = (Inr None, fresh_world)
   \<and> fetch_instagram_data sample_env (backslash_link ''p/ABC'') fresh_world
       = (Inr (Some ''https://cdn.example/video/1.bin''), emit (PostLookup ''ABC'') fresh_world)
   \<and> fetch_instagram_data sample_env (backslash_link ''p/PIC/?x=1'') fresh_world
       = (Inr (Some ''https://cdn.example/img/2.bin''), emit (PostLookup ''PIC'') fresh_world)
   \<and> fst (fetch_instagram_data sample_env (backslash_link ''reel/GONE'') fresh_world) = Inr None"
proof -
  have v: "from_shortcode sample_env ''ABC'' = Inr video_post \<and> is_video video_post = Inr True
           \<and> video_url video_post = Inr (Some ''https://cdn.example/video/1.bin'')"
    by (simp add: sample_env_def video_post_def)
  have p: "from_shortcode sample_env ''PIC'' = Inr photo_post \<and> is_video photo_post = Inr False
           \<and> url photo_post = Inr ''https://cdn.example/img/2.bin''"
    by (simp add: sample_env_def photo_post_def)
  have g: "lookup_media sample_env ''GONE'' = Inl (Exception ''not found'')"
    by (simp add: lookup_media_def sample_env_def)
  from fetch_instagram_data_never_raises [of sample_env "''not a url''" fresh_world]
  have "extract_shortcode ''not a url'' = None \<longrightarrow>
          fetch_instagram_data sample_env ''not a url'' fresh_world = (Inr None, fresh_world)"
    by blast
  with sample_codes(1) have 1:
    "fetch_instagram_data sample_env ''not a url'' fresh_world = (Inr None, fresh_world)"
    by blast
  from fetch_instagram_data_never_raises [of sample_env "backslash_link ''p/ABC''" fresh_world]
  have "extract_shortcode (backslash_link ''p/ABC'') = Some ''ABC'' \<and> ''ABC'' \<noteq> []
          \<and> from_shortcode sample_env ''ABC'' = Inr video_post
          \<and> is_video video_post = Inr True
          \<and> video_url video_post = Inr (Some ''https://cdn.example/video/1.bin'') \<longrightarrow>
        fetch_instagram_data sample_env (backslash_link ''p/ABC'') fresh_world
          = (Inr (Some ''https://cdn.example/video/1.bin''), emit (PostLookup ''ABC'') fresh_world)"
    by blast
  with sample_codes(2) v have 2:
    "fetch_instagram_data sample_env (backslash_link ''p/ABC'') fresh_world
       = (Inr (Some ''https://cdn.example/video/1.bin''), emit (PostLookup ''ABC'') fresh_world)"
    by simp
  from fetch_instagram_data_never_raises [of sample_env "backslash_link ''p/PIC/?x=1''" fresh_world]
  have "extract_shortcode (backslash_link ''p/PIC/?x=1'') = Some ''PIC'' \<and> ''PIC'' \<noteq> []
          \<and> from_shortcode sample_env ''PIC'' = Inr photo_post
          \<and> is_video photo_post = Inr False
          \<and> url photo_post = Inr ''https://cdn.example/img/2.bin'' \<longrightarrow>
        fetch_instagram_data sample_env (backslash_link ''p/PIC/?x=1'') fresh_world
          = (Inr (Some ''https://cdn.example/img/2.bin''), emit (PostLookup ''PIC'') fresh_world)"
    by blast
  with sample_codes(3) p have 3:
    "fetch_instagram_data sample_env (backslash_link ''p/PIC/?x=1'') fresh_world
       = (Inr (Some ''https://cdn.example/img/2.bin''), emit (PostLookup ''PIC'') fresh_world)"
    by simp
  from fetch_instagram_data_never_raises [of sample_env "backslash_link ''reel/GONE''" fresh_world]
  have "extract_shortcode (backslash_link ''reel/GONE'') = Some ''GONE''
          \<and> lookup_media sample_env ''GONE'' = Inl (Exception ''not found'') \<longrightarrow>
        fst (fetch_instagram_data sample_env (backslash_link ''reel/GONE'') fresh_world) = Inr None"
    by blast
  with sample_codes(4) g have 4:
    "fst (fetch_instagram_data sample_env (backslash_link ''reel/GONE'') fresh_world) = Inr None"
    by simp
  from 1 2 3 4 show ?thesis by simp
qed

section \<open>The kind of media the relay sends\<close>

lemma endswith_mp4: "endswith (xs @ ''.mp4'') ''.mp4''"
  by (simp add: endswith_def suffix_def)

lemma endswith_jpg: "\<not> endswith (xs @ ''.jpg'') ''.mp4''"
proof
  assume "endswith (xs @ ''.jpg'') ''.mp4''"
  then obtain zs where "xs @ ''.jpg'' = zs @ ''.mp4''"
    by (auto simp: endswith_def suffix_def)
  then have "''.jpg'' = ''.mp4''" by simp
  then show False by simp
qed

lemma temp_name_ext:
  "endswith (temp_name cid media_url) ''.mp4'' = py_in ''video'' media_url"
  using endswith_mp4 [of "''temp_'' @ str_int cid"] endswith_jpg [of "''temp_'' @ str_int cid"]
  by (simp add: temp_name_def)

text \<open>
  C8. When the download into the temp file succeeds, the relay goes by the substring
  \<open>video\<close> of the media URL: with it the temp file is \<open>temp_<chat_id>.mp4\<close> and the file is
  sent as a video, without it the temp file is \<open>temp_<chat_id>.jpg\<close> and the file is sent
  as a photo; both uploads carry the same caption.
\<close>

theorem relay_kind_by_video_marker:
  assumes "requests_get e media_url = Inr resp"
    and "open_wb e (temp_name cid media_url) = None"
    and "stream_error resp = None"
  shows "(py_in ''video'' media_url \<longrightarrow>
            temp_name cid media_url = ''temp_'' @ str_int cid @ ''.mp4''
          \<and> prefix (trace w @ [HttpGet media_url, ReplyVideo (concat (chunks resp)) caption])
               (trace (snd (relay e cid media_url w))))
       \<and> (\<not> py_in ''video'' media_url \<longrightarrow>
            temp_name cid media_url = ''temp_'' @ str_int cid @ ''.jpg''
          \<and> prefix (trace w @ [HttpGet media_url, ReplyPhoto (concat (chunks resp)) caption])
               (trace (snd (relay e cid media_url w))))"
proof -
  let ?up = "if py_in ''video'' media_url then ReplyVideo (concat (chunks resp)) caption
             else ReplyPhoto (concat (chunks resp)) caption"
  have "prefix (trace w @ [HttpGet media_url, ?up]) (trace (snd (relay e cid media_url w)))"
    using assms
    by (cases "chat e ?up"; cases "chat e DeleteProgress")
       (simp_all add: relay_def relay_try_def Let_def temp_name_ext call_chat_def emit_def
          and_then_def)
  then show ?thesis by (auto simp: temp_name_def)
qed

theorem relay_kind_by_video_marker_witness:
  "temp_name 42 ''https://cdn.example/video/1.bin'' = ''temp_42.mp4''
   \<and> prefix [HttpGet ''https://cdn.example/video/1.bin'', ReplyVideo ''abc'' caption]
        (trace (snd (relay sample_env 42 ''https://cdn.example/video/1.bin'' fresh_world)))
   \<and> temp_name (- 7) ''https://cdn.example/img/2.bin'' = ''temp_-7.jpg''
   \<and> prefix [HttpGet ''https://cdn.example/img/2.bin'', ReplyPhoto ''abc'' caption]
        (trace (snd (relay sample_env (- 7) ''https://cdn.example/img/2.bin'' fresh_world)))"
proof -
  have a: "requests_get sample_env ''https://cdn.example/video/1.bin''
             = Inr \<lparr>chunks = [''ab'', ''c''], stream_error = None\<rparr>"
          "requests_get sample_env ''https://cdn.example/img/2.bin''
             = Inr \<lparr>chunks = [''ab'', ''c''], stream_error = None\<rparr>"
    by (simp_all add: sample_env_def)
  have b: "open_wb sample_env (temp_name 42 ''https://cdn.example/video/1.bin'') = None"
          "open_wb sample_env (temp_name (- 7) ''https://cdn.example/img/2.bin'') = None"
    by (simp_all add: sample_env_def)
  have c: "stream_error \<lparr>chunks = [''ab'', ''c''], stream_error = None\<rparr> = None"
    by simp
  have v: "py_in ''video'' ''https://cdn.example/video/1.bin''"
          "\<not> py_in ''video'' ''https://cdn.example/img/2.bin''"
    by simp_all
  have n: "str_int 42 = ''42''" "str_int (- 7) = ''-7''"
    by (simp_all add: str_int_def digit_char_def)
  from relay_kind_by_video_marker [OF a(1) b(1) c, of fresh_world]
       relay_kind_by_video_marker [OF a(2) b(2) c, of fresh_world] v
  show ?thesis by (simp add: n fresh_world_def)
qed

end
